theory Spec2Isabelle
  imports Complex_Main
begin

section \<open>The multi-QR scanner of EpiCheck (MultiQRScanner.tsx)\<close>

text \<open>
  The component keeps React state (overlays, pendingEmails, validatedEmails, isValidating),
  three mutable refs (detectionBuffer, pendingBuffer, lastSeenMap) and a ref scanStateRef
  that is assigned from the React state in the component body, that is at every render.
  A call of a state setter does not change what a callback reads: the update is queued
  and reaches the state at the next render. So the fields \<open>overlays\<close>,
  \<open>pendingEmails\<close>, \<open>validatedEmails\<close> and \<open>isValidating\<close> of the model are the
  React state of the last render, which is what scanStateRef.current holds and what the
  closures of the handlers have captured, and the field \<open>queued\<close> holds the updates
  scheduled since then. Every handler is one event of the single UI thread. The updates of
  a press handler (Validate, Clear) are rendered before the next event; those of the
  interval callback are rendered in a later task, and a scan callback can be handled before
  that task. Times are the values of Date.now(), integers in milliseconds.
\<close>

subsection \<open>Constants\<close>

definition FLUSH_INTERVAL_MS :: int where
  "FLUSH_INTERVAL_MS = 400"

definition OVERLAY_TTL_MS :: int where
  "OVERLAY_TTL_MS = 2000"

definition DEDUP_WINDOW_MS :: int where
  "DEDUP_WINDOW_MS = 300"

subsection \<open>JavaScript values, Map and Set\<close>

text \<open>
  The values JSON.parse can return, with undefined added for a property that is absent.
  The fields of an object are in source order; a later duplicate key overrides an earlier one.
\<close>

datatype jsval =
    JUndefined
  | JNull
  | JBool bool
  | JNum real
  | JStr string
  | JArr "jsval list"
  | JObj "(string \<times> jsval) list"

datatype js_error = SyntaxError | TypeError

text \<open>The operand test of \<open>||\<close>: undefined, null, false, 0 and the empty string are falsy.\<close>

fun truthy :: "jsval \<Rightarrow> bool" where
  "truthy JUndefined = False"
| "truthy JNull = False"
| "truthy (JBool b) = b"
| "truthy (JNum n) = (n \<noteq> 0)"
| "truthy (JStr s) = (s \<noteq> [])"
| "truthy (JArr vs) = True"
| "truthy (JObj fs) = True"

text \<open>
  The property reads \<open>parsed.email\<close> and \<open>parsed.Email\<close>: a TypeError on null (and
  undefined), the field of an object, and undefined on every other value, none of whose
  prototypes has a property of these two names.
\<close>

definition obj_field :: "(string \<times> jsval) list \<Rightarrow> string \<Rightarrow> jsval" where
  "obj_field fs k = (case map_of (rev fs) k of None \<Rightarrow> JUndefined | Some v \<Rightarrow> v)"

fun get_prop :: "jsval \<Rightarrow> string \<Rightarrow> js_error + jsval" where
  "get_prop JUndefined k = Inl TypeError"
| "get_prop JNull k = Inl TypeError"
| "get_prop (JObj fs) k = Inr (obj_field fs k)"
| "get_prop (JBool b) k = Inr JUndefined"
| "get_prop (JNum n) k = Inr JUndefined"
| "get_prop (JStr s) k = Inr JUndefined"
| "get_prop (JArr vs) k = Inr JUndefined"

text \<open>
  A JavaScript Map is an association list in insertion order: \<open>set\<close> replaces the value
  of a present key in place and appends an absent one; \<open>get\<close> is \<open>map_of\<close>.
  A JavaScript Set is a list in insertion order: \<open>add\<close> appends an absent element.
\<close>

fun map_set :: "'k \<Rightarrow> 'v \<Rightarrow> ('k \<times> 'v) list \<Rightarrow> ('k \<times> 'v) list" where
  "map_set k v [] = [(k, v)]"
| "map_set k v (e # m) = (if fst e = k then (k, v) # m else e # map_set k v m)"

definition set_add :: "'a \<Rightarrow> 'a list \<Rightarrow> 'a list" where
  "set_add e xs = (if e \<in> set xs then xs else xs @ [e])"

subsection \<open>Data\<close>

record bounds =
  bounds_x :: real
  bounds_y :: real
  bounds_width :: real
  bounds_height :: real

text \<open>The type QROverlay.\<close>

record QROverlay =
  ov_id :: string
  ov_text :: string
  ov_bounds :: bounds
  lastSeen :: int
  processed :: bool

text \<open>
  A BarcodeScanningResult as the callback reads it: the decoded data and the bounds,
  every part of which may be missing (the callback reads them with \<open>?.\<close> and \<open>??\<close>).
\<close>

record point =
  point_x :: "real option"
  point_y :: "real option"

record extent =
  extent_width :: "real option"
  extent_height :: "real option"

record barcode_bounds =
  origin :: "point option"
  size_of :: "extent option"

record scan_result =
  result_data :: string
  result_bounds :: "barcode_bounds option"

text \<open>
  The state updates the handlers schedule, one constructor for each call of a setter:
  the two updaters of setOverlays in the interval callback (with their cutoff, and the
  snapshot of the detection buffer), the updater of setPendingEmails there (with the
  copy of the pending buffer), and in handleValidate and handleClearPending
  setIsValidating, the updater of setValidatedEmails (with the emails), the updater of
  setOverlays (with the pending set of the closure) and \<open>setPendingEmails(new Set())\<close>.
\<close>

datatype update =
    MergeOverlays int "(string \<times> QROverlay) list"
  | PruneOverlays int
  | UnionPending "string list"
  | SetIsValidating bool
  | AddValidated "string list"
  | MarkProcessed "string list"
  | EmptyPending

text \<open>
  The state of one mounted component. \<open>isActive\<close> is the prop of that name;
  \<open>submitted\<close> records the calls of the prop \<open>onValidate\<close>, oldest first (the prop
  is taken to return); \<open>queued\<close> holds the scheduled updates, oldest first.
\<close>

record scanner =
  overlays :: "QROverlay list"
  pendingEmails :: "string list"
  validatedEmails :: "string list"
  isValidating :: bool
  isActive :: bool
  detectionBuffer :: "(string \<times> QROverlay) list"
  pendingBuffer :: "string list"
  lastSeenMap :: "(string \<times> int) list"
  submitted :: "string list list"
  queued :: "update list"

definition initial :: "bool \<Rightarrow> scanner" where
  "initial active =
     \<lparr>overlays = [], pendingEmails = [], validatedEmails = [], isValidating = False,
      isActive = active, detectionBuffer = [], pendingBuffer = [], lastSeenMap = [],
      submitted = [], queued = []\<rparr>"

subsection \<open>The scan callback handleBarCodeScanned\<close>

text \<open>
  The email extraction at the head of the callback. \<open>parse\<close> stands for JSON.parse:
  None when it throws a SyntaxError. The TypeError of a property read on null is raised
  inside the same try block, so the catch clause handles both.
\<close>

definition email_of_parsed :: "jsval \<Rightarrow> string \<Rightarrow> js_error + jsval" where
  "email_of_parsed parsed data =
     (case get_prop parsed ''email'' of
        Inl e \<Rightarrow> Inl e
      | Inr v1 \<Rightarrow>
          if truthy v1 then Inr v1
          else (case get_prop parsed ''Email'' of
                  Inl e \<Rightarrow> Inl e
                | Inr v2 \<Rightarrow> if truthy v2 then Inr v2 else Inr (JStr data)))"

definition extract_email :: "(string \<Rightarrow> jsval option) \<Rightarrow> string \<Rightarrow> jsval" where
  "extract_email parse data =
     (case parse data of
        None \<Rightarrow> JStr data
      | Some parsed \<Rightarrow>
          (case email_of_parsed parsed data of
             Inl e \<Rightarrow> JStr data
           | Inr v \<Rightarrow> v))"

text \<open>The four reads \<open>result.bounds?.origin?.x ?? 0\<close> and the bounds built from them.\<close>

definition raw_bounds :: "scan_result \<Rightarrow> bounds" where
  "raw_bounds result =
     (let rawX = (case result_bounds result of None \<Rightarrow> 0 | Some b \<Rightarrow>
                    (case origin b of None \<Rightarrow> 0 | Some p \<Rightarrow>
                       (case point_x p of None \<Rightarrow> 0 | Some v \<Rightarrow> v)));
          rawY = (case result_bounds result of None \<Rightarrow> 0 | Some b \<Rightarrow>
                    (case origin b of None \<Rightarrow> 0 | Some p \<Rightarrow>
                       (case point_y p of None \<Rightarrow> 0 | Some v \<Rightarrow> v)));
          rawW = (case result_bounds result of None \<Rightarrow> 0 | Some b \<Rightarrow>
                    (case size_of b of None \<Rightarrow> 0 | Some e \<Rightarrow>
                       (case extent_width e of None \<Rightarrow> 0 | Some v \<Rightarrow> v)));
          rawH = (case result_bounds result of None \<Rightarrow> 0 | Some b \<Rightarrow>
                    (case size_of b of None \<Rightarrow> 0 | Some e \<Rightarrow>
                       (case extent_height e of None \<Rightarrow> 0 | Some v \<Rightarrow> v)))
      in \<lparr>bounds_x = rawX, bounds_y = rawY, bounds_width = rawW, bounds_height = rawH\<rparr>)"

text \<open>
  The test \<open>prev && now - prev < DEDUP_WINDOW_MS\<close> on the entry of lastSeenMap:
  \<open>prev\<close> is falsy when the entry is absent and also when it is the number 0.
\<close>

definition recently_processed :: "(string \<times> int) list \<Rightarrow> string \<Rightarrow> int \<Rightarrow> bool" where
  "recently_processed m email now =
     (case map_of m email of
        None \<Rightarrow> False
      | Some prev \<Rightarrow> prev \<noteq> 0 \<and> now - prev < DEDUP_WINDOW_MS)"

text \<open>
  The callback from the dedup test on, for the extracted email. The sets it tests,
  \<open>state.validatedEmails\<close> and \<open>state.pendingEmails\<close>, are those of
  scanStateRef.current, the sets of the last render: an update that a tick has queued
  and that is not rendered yet is not in them.
\<close>

definition scan_email :: "string \<Rightarrow> scan_result \<Rightarrow> int \<Rightarrow> scanner \<Rightarrow> scanner" where
  "scan_email email result now s =
     (if recently_processed (lastSeenMap s) email now then s
      else
        let isAlreadyValidated = email \<in> set (validatedEmails s);
            s1 = s\<lparr>lastSeenMap := map_set email now (lastSeenMap s)\<rparr>;
            s2 = s1\<lparr>detectionBuffer :=
                      map_set email
                        \<lparr>ov_id = email, ov_text = email, ov_bounds = raw_bounds result,
                         lastSeen = now, processed = isAlreadyValidated\<rparr>
                        (detectionBuffer s1)\<rparr>
        in if \<not> isAlreadyValidated \<and> email \<notin> set (pendingEmails s)
           then s2\<lparr>pendingBuffer := set_add email (pendingBuffer s2)\<rparr>
           else s2)"

text \<open>
  The whole callback. The component declares the email a string (the keys of its Maps,
  the elements of its Sets, the argument of onValidate). A JSON field holding a truthy value
  that is no string (a number, true, an array, an object) would be used as the key as it
  is, an object by its identity; the model, whose keys are strings, stops there: the result
  None marks such a call as outside the model, it is no error of the callback. Every
  statement below about the callback is about a detection whose email is a string.
\<close>

definition handleBarCodeScanned ::
  "(string \<Rightarrow> jsval option) \<Rightarrow> scan_result \<Rightarrow> int \<Rightarrow> scanner \<Rightarrow> scanner option" where
  "handleBarCodeScanned parse result now s =
     (if \<not> isActive s \<or> isValidating s then Some s
      else (case extract_email parse (result_data result) of
              JStr email \<Rightarrow> Some (scan_email email result now s)
            | _ \<Rightarrow> None))"

subsection \<open>The flush interval\<close>

definition fresh :: "int \<Rightarrow> QROverlay \<Rightarrow> bool" where
  "fresh cutoff ov = (lastSeen ov > cutoff)"

text \<open>The merge of the kept overlays and the snapshot of the buffer into a new Map.\<close>

definition merge_overlays :: "int \<Rightarrow> QROverlay list \<Rightarrow> (string \<times> QROverlay) list \<Rightarrow> QROverlay list" where
  "merge_overlays cutoff prev snapshot =
     (let merged0 = foldl (\<lambda>merged ov. if fresh cutoff ov then map_set (ov_id ov) ov merged else merged) [] prev;
          merged1 = foldl (\<lambda>merged e. map_set (fst e) (snd e) merged) merged0 snapshot
      in map snd merged1)"

definition flush_overlays :: "int \<Rightarrow> scanner \<Rightarrow> scanner" where
  "flush_overlays cutoff s =
     (if length (detectionBuffer s) > 0
      then s\<lparr>overlays := merge_overlays cutoff (overlays s) (detectionBuffer s),
             detectionBuffer := []\<rparr>
      else s\<lparr>overlays := filter (fresh cutoff) (overlays s)\<rparr>)"

definition flush_pending :: "scanner \<Rightarrow> scanner" where
  "flush_pending s =
     (if length (pendingBuffer s) > 0
      then s\<lparr>pendingEmails := foldl (\<lambda>next e. set_add e next) (pendingEmails s) (pendingBuffer s),
             pendingBuffer := []\<rparr>
      else s)"

definition prune_dedup :: "int \<Rightarrow> scanner \<Rightarrow> scanner" where
  "prune_dedup cutoff s =
     (if length (lastSeenMap s) > 50
      then s\<lparr>lastSeenMap := filter (\<lambda>e. \<not> snd e < cutoff) (lastSeenMap s)\<rparr>
      else s)"

text \<open>
  One tick of the interval at time \<open>now\<close> together with the render of its updates:
  the state after the tick has been rendered, when nothing else was queued.
\<close>

definition flush :: "int \<Rightarrow> scanner \<Rightarrow> scanner" where
  "flush now s =
     (let cutoff = now - OVERLAY_TTL_MS
      in prune_dedup cutoff (flush_pending (flush_overlays cutoff s)))"

subsection \<open>Validate and Clear\<close>

text \<open>
  The two press handlers together with the render of their updates, when nothing else
  was queued. The setters of handleValidate are batched into one render, in the order of
  the calls.
\<close>

definition handleValidate :: "scanner \<Rightarrow> scanner" where
  "handleValidate s =
     (if length (pendingEmails s) = 0 \<or> isValidating s then s
      else
        let emails = pendingEmails s;
            s1 = s\<lparr>isValidating := True\<rparr>;
            s2 = s1\<lparr>validatedEmails := foldl (\<lambda>next e. set_add e next) (validatedEmails s1) emails\<rparr>;
            s3 = s2\<lparr>overlays :=
                      map (\<lambda>ov. ov\<lparr>processed := (ov_id ov \<in> set (pendingEmails s) \<or> processed ov)\<rparr>)
                        (overlays s2)\<rparr>;
            s4 = s3\<lparr>pendingEmails := []\<rparr>;
            s5 = s4\<lparr>submitted := submitted s4 @ [emails]\<rparr>
        in s5\<lparr>isValidating := False\<rparr>)"

definition handleClearPending :: "scanner \<Rightarrow> scanner" where
  "handleClearPending s = s\<lparr>pendingEmails := []\<rparr>"

subsection \<open>Queued updates and the render\<close>

text \<open>What each scheduled update does to the state when it is rendered.\<close>

fun apply_update :: "update \<Rightarrow> scanner \<Rightarrow> scanner" where
  "apply_update (MergeOverlays cutoff snapshot) s =
     s\<lparr>overlays := merge_overlays cutoff (overlays s) snapshot\<rparr>"
| "apply_update (PruneOverlays cutoff) s =
     s\<lparr>overlays := filter (fresh cutoff) (overlays s)\<rparr>"
| "apply_update (UnionPending newEmails) s =
     s\<lparr>pendingEmails := foldl (\<lambda>next e. set_add e next) (pendingEmails s) newEmails\<rparr>"
| "apply_update (SetIsValidating b) s = s\<lparr>isValidating := b\<rparr>"
| "apply_update (AddValidated emails) s =
     s\<lparr>validatedEmails := foldl (\<lambda>next e. set_add e next) (validatedEmails s) emails\<rparr>"
| "apply_update (MarkProcessed pending) s =
     s\<lparr>overlays :=
         map (\<lambda>ov. ov\<lparr>processed := (ov_id ov \<in> set pending \<or> processed ov)\<rparr>) (overlays s)\<rparr>"
| "apply_update EmptyPending s = s\<lparr>pendingEmails := []\<rparr>"

text \<open>
  A render: the queued updates reach the state, oldest first, and scanStateRef.current
  is assigned from the new state.
\<close>

definition render :: "scanner \<Rightarrow> scanner" where
  "render s = (foldl (\<lambda>st u. apply_update u st) s (queued s))\<lparr>queued := []\<rparr>"

text \<open>
  The interval callback by itself, before any render: it empties the two buffers, prunes
  the dedup map and schedules its updates.
\<close>

definition interval_tick :: "int \<Rightarrow> scanner \<Rightarrow> scanner" where
  "interval_tick now s =
     (let cutoff = now - OVERLAY_TTL_MS;
          s1 = (if length (detectionBuffer s) > 0
                then s\<lparr>queued := queued s @ [MergeOverlays cutoff (detectionBuffer s)],
                       detectionBuffer := []\<rparr>
                else s\<lparr>queued := queued s @ [PruneOverlays cutoff]\<rparr>);
          s2 = (if length (pendingBuffer s1) > 0
                then s1\<lparr>queued := queued s1 @ [UnionPending (pendingBuffer s1)],
                        pendingBuffer := []\<rparr>
                else s1)
      in prune_dedup cutoff s2)"

text \<open>
  A press on Validate and a press on Clear in any state: the handler reads the pending set
  and the flag of its closure, those of the last render, schedules its updates behind the
  ones already queued, and the render follows before the next event. A press on Validate
  that the guard turns away schedules nothing, so that no render follows it.
\<close>

definition press_validate :: "scanner \<Rightarrow> scanner" where
  "press_validate s =
     (if length (pendingEmails s) = 0 \<or> isValidating s then s
      else
        let emails = pendingEmails s
        in render (s\<lparr>queued := queued s @
                       [SetIsValidating True, AddValidated emails,
                        MarkProcessed (pendingEmails s), EmptyPending, SetIsValidating False],
                     submitted := submitted s @ [emails]\<rparr>))"

definition press_clear :: "scanner \<Rightarrow> scanner" where
  "press_clear s = render (s\<lparr>queued := queued s @ [EmptyPending]\<rparr>)"

subsection \<open>Rendering the overlays\<close>

text \<open>
  The part of overlayElements that places a box: an overlay of zero width or zero height
  is skipped, every other one gives an element keyed by its id, 25 units above its bounds,
  in the colour of its processed flag.
\<close>

record element =
  el_key :: string
  el_left :: real
  el_top :: real
  el_width :: real
  el_height :: real
  el_color :: string

definition overlayElements :: "QROverlay list \<Rightarrow> element list" where
  "overlayElements ovs =
     map (\<lambda>ov. \<lparr>el_key = ov_id ov, el_left = bounds_x (ov_bounds ov),
                el_top = bounds_y (ov_bounds ov) - 25,
                el_width = bounds_width (ov_bounds ov), el_height = bounds_height (ov_bounds ov),
                el_color = (if processed ov then ''#00ff00'' else ''#ffaa00'')\<rparr>)
       (filter (\<lambda>ov. \<not> (bounds_width (ov_bounds ov) = 0 \<or> bounds_height (ov_bounds ov) = 0)) ovs)"

subsection \<open>Runs of events\<close>

text \<open>
  The events of a session: a scan callback, a tick of the interval, the render of what is
  queued, a tick whose render comes before the next event (Flush), and the two presses.
\<close>

datatype event = Scan scan_result int | Tick int | Render | Flush int | Validate | Clear

fun step :: "(string \<Rightarrow> jsval option) \<Rightarrow> event \<Rightarrow> scanner \<Rightarrow> scanner option" where
  "step parse (Scan result now) s = handleBarCodeScanned parse result now s"
| "step parse (Tick now) s = Some (interval_tick now s)"
| "step parse Render s = Some (render s)"
| "step parse (Flush now) s = Some (render (interval_tick now s))"
| "step parse Validate s = Some (press_validate s)"
| "step parse Clear s = Some (press_clear s)"

fun run :: "(string \<Rightarrow> jsval option) \<Rightarrow> event list \<Rightarrow> scanner \<Rightarrow> scanner option" where
  "run parse [] s = Some s"
| "run parse (ev # evs) s =
     (case step parse ev s of None \<Rightarrow> None | Some s' \<Rightarrow> run parse evs s')"

text \<open>The events whose state updates, if any, are rendered before the next event.\<close>

fun rendered_at_once :: "event \<Rightarrow> bool" where
  "rendered_at_once (Tick now) = False"
| "rendered_at_once Render = False"
| "rendered_at_once ev = True"

subsection \<open>An invariant of the three collections of emails\<close>

definition disjoint_inv :: "scanner \<Rightarrow> bool" where
  "disjoint_inv s =
     (set (pendingEmails s) \<inter> set (validatedEmails s) = {} \<and>
      set (pendingBuffer s) \<inter> set (validatedEmails s) = {} \<and>
      set (pendingBuffer s) \<inter> set (pendingEmails s) = {})"

text \<open>
  The lists stand for Maps and Sets when no key and no element occurs twice; then
  \<open>length\<close> is the \<open>size\<close> the flush tests.
\<close>

definition well_formed :: "scanner \<Rightarrow> bool" where
  "well_formed s =
     (distinct (map fst (lastSeenMap s)) \<and> distinct (map fst (detectionBuffer s)) \<and>
      distinct (pendingEmails s) \<and> distinct (validatedEmails s) \<and>
      distinct (pendingBuffer s))"

subsection \<open>Example inputs and states\<close>

text \<open>
  JSON.parse on the inputs of the examples: the texts listed here parse to the values
  beside them; every other input of the examples is a bare email address, which is no
  JSON text, so that JSON.parse throws a SyntaxError on it.
\<close>

definition json_samples :: "(string \<times> jsval) list" where
  \<open>json_samples =
     [(''{"email":"a@x.eu"}'', JObj [(''email'', JStr ''a@x.eu'')]),
      (''{"Email":"b@x.eu"}'', JObj [(''Email'', JStr ''b@x.eu'')]),
      (''{"email":"","Email":"b@x.eu"}'',
         JObj [(''email'', JStr ''''), (''Email'', JStr ''b@x.eu'')]),
      (''{"email":""}'', JObj [(''email'', JStr '''')]),
      (''{"name":"a"}'', JObj [(''name'', JStr ''a'')]),
      (''null'', JNull),
      (''42'', JNum 42)]\<close>

definition sample_parse :: "string \<Rightarrow> jsval option" where
  "sample_parse = map_of json_samples"

text \<open>A detection of a 40 by 40 code at a given origin, and the overlay shown for one.\<close>

definition det :: "string \<Rightarrow> real \<Rightarrow> real \<Rightarrow> scan_result" where
  "det d px py =
     \<lparr>result_data = d,
      result_bounds =
        Some \<lparr>origin = Some \<lparr>point_x = Some px, point_y = Some py\<rparr>,
              size_of = Some \<lparr>extent_width = Some 40, extent_height = Some 40\<rparr>\<rparr>\<rparr>"

definition box :: "string \<Rightarrow> real \<Rightarrow> real \<Rightarrow> int \<Rightarrow> bool \<Rightarrow> QROverlay" where
  "box e px py t pr =
     \<lparr>ov_id = e, ov_text = e,
      ov_bounds = \<lparr>bounds_x = px, bounds_y = py, bounds_width = 40, bounds_height = 40\<rparr>,
      lastSeen = t, processed = pr\<rparr>"

definition two_pending :: scanner where
  "two_pending =
     \<lparr>overlays = [box ''a@x.eu'' 10 10 1000 False, box ''b@x.eu'' 60 10 1010 False],
      pendingEmails = [''a@x.eu'', ''b@x.eu''], validatedEmails = [],
      isValidating = False, isActive = True, detectionBuffer = [], pendingBuffer = [],
      lastSeenMap = [(''a@x.eu'', 1000), (''b@x.eu'', 1010)], submitted = [], queued = []\<rparr>"

definition two_validated :: scanner where
  "two_validated =
     \<lparr>overlays = [box ''a@x.eu'' 10 10 1000 True, box ''b@x.eu'' 60 10 1010 True],
      pendingEmails = [], validatedEmails = [''a@x.eu'', ''b@x.eu''],
      isValidating = False, isActive = True, detectionBuffer = [], pendingBuffer = [],
      lastSeenMap = [(''a@x.eu'', 1000), (''b@x.eu'', 1010)],
      submitted = [[''a@x.eu'', ''b@x.eu'']], queued = []\<rparr>"

definition a_rescanned :: scanner where
  "a_rescanned =
     \<lparr>overlays = [box ''a@x.eu'' 10 10 1000 True, box ''b@x.eu'' 60 10 1010 True],
      pendingEmails = [], validatedEmails = [''a@x.eu'', ''b@x.eu''],
      isValidating = False, isActive = True,
      detectionBuffer = [(''a@x.eu'', box ''a@x.eu'' 30 30 2000 True)], pendingBuffer = [],
      lastSeenMap = [(''a@x.eu'', 2000), (''b@x.eu'', 1010)],
      submitted = [[''a@x.eu'', ''b@x.eu'']], queued = []\<rparr>"

definition a_reshown :: scanner where
  "a_reshown =
     \<lparr>overlays = [box ''a@x.eu'' 30 30 2000 True, box ''b@x.eu'' 60 10 1010 True],
      pendingEmails = [], validatedEmails = [''a@x.eu'', ''b@x.eu''],
      isValidating = False, isActive = True, detectionBuffer = [], pendingBuffer = [],
      lastSeenMap = [(''a@x.eu'', 2000), (''b@x.eu'', 1010)],
      submitted = [[''a@x.eu'', ''b@x.eu'']], queued = []\<rparr>"

definition first_shown :: scanner where
  "first_shown =
     \<lparr>overlays = [box ''x@epitech.eu'' 10 10 1000 False],
      pendingEmails = [''x@epitech.eu''], validatedEmails = [],
      isValidating = False, isActive = True, detectionBuffer = [], pendingBuffer = [],
      lastSeenMap = [(''x@epitech.eu'', 1000)], submitted = [], queued = []\<rparr>"

definition second_shown :: scanner where
  "second_shown =
     \<lparr>overlays = [box ''x@epitech.eu'' 20 20 100 False],
      pendingEmails = [''x@epitech.eu''], validatedEmails = [],
      isValidating = False, isActive = True, detectionBuffer = [], pendingBuffer = [],
      lastSeenMap = [(''x@epitech.eu'', 100)], submitted = [], queued = []\<rparr>"

text \<open>
  The states of a run in which a scan is handled between a tick and its render, and the
  states of two detections of one email.
\<close>

definition race_validated :: scanner where
  "race_validated =
     \<lparr>overlays = [box ''a@x.eu'' 10 10 1000 True],
      pendingEmails = [], validatedEmails = [''a@x.eu''],
      isValidating = False, isActive = True,
      detectionBuffer = [(''a@x.eu'', box ''a@x.eu'' 20 20 1401 False)],
      pendingBuffer = [''a@x.eu''], lastSeenMap = [(''a@x.eu'', 1401)],
      submitted = [[''a@x.eu'']], queued = []\<rparr>"

definition race_pending :: scanner where
  "race_pending =
     \<lparr>overlays = [box ''a@x.eu'' 20 20 1401 False],
      pendingEmails = [''a@x.eu''], validatedEmails = [''a@x.eu''],
      isValidating = False, isActive = True, detectionBuffer = [], pendingBuffer = [],
      lastSeenMap = [(''a@x.eu'', 1401)], submitted = [[''a@x.eu'']], queued = []\<rparr>"

definition race_rescanned :: scanner where
  "race_rescanned =
     \<lparr>overlays = [box ''a@x.eu'' 10 10 1000 True],
      pendingEmails = [], validatedEmails = [''a@x.eu''],
      isValidating = False, isActive = True,
      detectionBuffer = [(''a@x.eu'', box ''a@x.eu'' 30 30 1701 True)],
      pendingBuffer = [''a@x.eu''], lastSeenMap = [(''a@x.eu'', 1701)],
      submitted = [[''a@x.eu'']], queued = []\<rparr>"

definition race_repending :: scanner where
  "race_repending =
     \<lparr>overlays = [box ''a@x.eu'' 30 30 1701 True],
      pendingEmails = [''a@x.eu''], validatedEmails = [''a@x.eu''],
      isValidating = False, isActive = True, detectionBuffer = [], pendingBuffer = [],
      lastSeenMap = [(''a@x.eu'', 1701)], submitted = [[''a@x.eu'']], queued = []\<rparr>"

definition x_seen :: scanner where
  "x_seen =
     \<lparr>overlays = [], pendingEmails = [], validatedEmails = [],
      isValidating = False, isActive = True,
      detectionBuffer = [(''x@epitech.eu'', box ''x@epitech.eu'' 10 10 1000 False)],
      pendingBuffer = [''x@epitech.eu''],
      lastSeenMap = [(''x@epitech.eu'', 1000)], submitted = [], queued = []\<rparr>"

definition x_seen_again :: scanner where
  "x_seen_again =
     \<lparr>overlays = [], pendingEmails = [], validatedEmails = [],
      isValidating = False, isActive = True,
      detectionBuffer = [(''x@epitech.eu'', box ''x@epitech.eu'' 20 20 1300 False)],
      pendingBuffer = [''x@epitech.eu''],
      lastSeenMap = [(''x@epitech.eu'', 1300)], submitted = [], queued = []\<rparr>"

section \<open>Properties\<close>

subsection \<open>Evaluation of the examples\<close>

lemmas model_defs =
  handleBarCodeScanned_def extract_email_def email_of_parsed_def obj_field_def scan_email_def
  recently_processed_def raw_bounds_def flush_def flush_overlays_def flush_pending_def
  prune_dedup_def merge_overlays_def fresh_def set_add_def handleValidate_def
  handleClearPending_def render_def interval_tick_def press_validate_def press_clear_def
  initial_def DEDUP_WINDOW_MS_def OVERLAY_TTL_MS_def Let_def

lemmas example_defs =
  sample_parse_def json_samples_def det_def box_def two_pending_def two_validated_def
  a_rescanned_def a_reshown_def first_shown_def second_shown_def race_validated_def
  race_pending_def race_rescanned_def race_repending_def x_seen_def x_seen_again_def

lemma run_two_pending:
  "run sample_parse
     [Scan (det ''a@x.eu'' 10 10) 1000, Scan (det ''b@x.eu'' 60 10) 1010, Flush 1400]
     (initial True) = Some two_pending"
  by (simp add: model_defs example_defs)

lemma validate_two_pending: "handleValidate two_pending = two_validated"
  by (simp add: model_defs example_defs)

lemma run_two_validated:
  "run sample_parse
     [Scan (det ''a@x.eu'' 10 10) 1000, Scan (det ''b@x.eu'' 60 10) 1010, Flush 1400, Validate]
     (initial True) = Some two_validated"
  by (simp add: model_defs example_defs)

lemma scan_two_validated:
  "handleBarCodeScanned sample_parse (det ''a@x.eu'' 30 30) 2000 two_validated = Some a_rescanned"
  by (simp add: model_defs example_defs)

lemma flush_a_rescanned: "flush 2400 a_rescanned = a_reshown"
  by (simp add: model_defs example_defs)

subsection \<open>Map and Set\<close>

lemma set_foldl_set_add:
  "set (foldl (\<lambda>next e. set_add e next) xs ys) = set xs \<union> set ys"
  by (induction ys arbitrary: xs) (auto simp: set_add_def)

lemma map_of_map_set: "map_of (map_set k v m) = (map_of m)(k \<mapsto> v)"
  by (induction m) (auto simp: fun_eq_iff)

lemma snd_set_map_set: "snd ` set (map_set k v m) \<subseteq> insert v (snd ` set m)"
  by (induction m) auto

subsection \<open>What each handler leaves alone\<close>

lemma scan_email_fields:
  "pendingEmails (scan_email e r now s) = pendingEmails s"
  "validatedEmails (scan_email e r now s) = validatedEmails s"
  "overlays (scan_email e r now s) = overlays s"
  "isActive (scan_email e r now s) = isActive s"
  "isValidating (scan_email e r now s) = isValidating s"
  "submitted (scan_email e r now s) = submitted s"
  by (simp_all add: scan_email_def Let_def)

lemma flush_fields:
  "validatedEmails (flush now s) = validatedEmails s"
  "isActive (flush now s) = isActive s"
  "isValidating (flush now s) = isValidating s"
  "submitted (flush now s) = submitted s"
  "pendingBuffer (flush now s) = []"
  "detectionBuffer (flush now s) = []"
  "set (pendingEmails (flush now s)) = set (pendingEmails s) \<union> set (pendingBuffer s)"
  by (simp_all add: flush_def flush_overlays_def flush_pending_def prune_dedup_def Let_def
      set_foldl_set_add)

lemma validate_fields:
  "set (validatedEmails (handleValidate s)) =
     (if pendingEmails s = [] \<or> isValidating s then set (validatedEmails s)
      else set (validatedEmails s) \<union> set (pendingEmails s))"
  "pendingBuffer (handleValidate s) = pendingBuffer s"
  "detectionBuffer (handleValidate s) = detectionBuffer s"
  "lastSeenMap (handleValidate s) = lastSeenMap s"
  "isActive (handleValidate s) = isActive s"
  "isValidating (handleValidate s) = isValidating s"
  by (auto simp: handleValidate_def Let_def set_foldl_set_add)

subsection \<open>The scan callback\<close>

lemma handleBarCodeScanned_live:
  "isActive s \<Longrightarrow> \<not> isValidating s \<Longrightarrow> extract_email parse (result_data r) = JStr e \<Longrightarrow>
   handleBarCodeScanned parse r now s = Some (scan_email e r now s)"
  by (simp add: handleBarCodeScanned_def)

lemma scan_email_suppressed:
  "recently_processed (lastSeenMap s) e now \<Longrightarrow> scan_email e r now s = s"
  by (simp add: scan_email_def)

lemma scan_email_processed:
  assumes "\<not> recently_processed (lastSeenMap s) e now"
  shows "map_of (lastSeenMap (scan_email e r now s)) e = Some now"
    and "map_of (detectionBuffer (scan_email e r now s)) e =
           Some \<lparr>ov_id = e, ov_text = e, ov_bounds = raw_bounds r, lastSeen = now,
                 processed = (e \<in> set (validatedEmails s))\<rparr>"
    and "pendingBuffer (scan_email e r now s) =
           (if e \<notin> set (validatedEmails s) \<and> e \<notin> set (pendingEmails s)
            then set_add e (pendingBuffer s) else pendingBuffer s)"
  using assms by (simp_all add: scan_email_def Let_def map_of_map_set)

lemma validated_detection_step:
  assumes "isActive s" and "\<not> isValidating s"
    and "extract_email parse (result_data r) = JStr p"
    and "p \<in> set (validatedEmails s)"
    and "\<not> recently_processed (lastSeenMap s) p now"
  shows "handleBarCodeScanned parse r now s = Some (scan_email p r now s) \<and>
         map_of (detectionBuffer (scan_email p r now s)) p =
           Some \<lparr>ov_id = p, ov_text = p, ov_bounds = raw_bounds r, lastSeen = now,
                 processed = True\<rparr> \<and>
         pendingBuffer (scan_email p r now s) = pendingBuffer s \<and>
         pendingEmails (scan_email p r now s) = pendingEmails s"
  using handleBarCodeScanned_live [OF assms(1,2,3)] scan_email_processed(2,3) [OF assms(5), of r]
    assms(4)
  by (simp add: scan_email_fields)

lemma recently_processed_iff:
  "map_of m e = Some prev \<Longrightarrow>
   recently_processed m e now = (prev \<noteq> 0 \<and> now - prev < DEDUP_WINDOW_MS)"
  by (simp add: recently_processed_def)

subsection \<open>The handlers with their render\<close>

lemma render_quiet: "queued s = [] \<Longrightarrow> render s = s"
  by (simp add: render_def)

lemma render_interval_tick: "queued s = [] \<Longrightarrow> render (interval_tick now s) = flush now s"
  by (simp add: render_def interval_tick_def flush_def flush_overlays_def flush_pending_def
      prune_dedup_def Let_def)

lemma press_validate_quiet: "queued s = [] \<Longrightarrow> press_validate s = handleValidate s"
  by (simp add: press_validate_def handleValidate_def render_def Let_def)

lemma press_clear_quiet: "queued s = [] \<Longrightarrow> press_clear s = handleClearPending s"
  by (simp add: press_clear_def handleClearPending_def render_def)

lemma queued_kept:
  "queued (scan_email e r now s) = queued s"
  "queued (flush now s) = queued s"
  "queued (handleValidate s) = queued s"
  "queued (handleClearPending s) = queued s"
  by (simp_all add: scan_email_def flush_def flush_overlays_def flush_pending_def prune_dedup_def
      handleValidate_def handleClearPending_def Let_def)

lemma step_rendered_at_once:
  assumes "queued s = []" and "rendered_at_once ev"
  shows "step parse ev s =
           (case ev of
              Scan r now \<Rightarrow> handleBarCodeScanned parse r now s
            | Flush now \<Rightarrow> Some (flush now s)
            | Validate \<Rightarrow> Some (handleValidate s)
            | Clear \<Rightarrow> Some (handleClearPending s)
            | _ \<Rightarrow> None)"
  using assms
  by (cases ev) (simp_all add: render_interval_tick press_validate_quiet press_clear_quiet)

subsection \<open>The invariant holds where every update is rendered before the next event\<close>

lemma inv_initial: "disjoint_inv (initial active)"
  by (simp add: disjoint_inv_def initial_def)

lemma inv_scan_email: "disjoint_inv s \<Longrightarrow> disjoint_inv (scan_email e r now s)"
  by (auto simp: disjoint_inv_def scan_email_def Let_def set_add_def)

lemma inv_flush: "disjoint_inv s \<Longrightarrow> disjoint_inv (flush now s)"
  by (auto simp: disjoint_inv_def flush_fields)

lemma inv_validate: "disjoint_inv s \<Longrightarrow> disjoint_inv (handleValidate s)"
  by (auto simp: disjoint_inv_def handleValidate_def Let_def set_foldl_set_add)

lemma inv_clear: "disjoint_inv s \<Longrightarrow> disjoint_inv (handleClearPending s)"
  by (auto simp: disjoint_inv_def handleClearPending_def)

lemma inv_step:
  assumes "disjoint_inv s" and "queued s = []" and "rendered_at_once ev"
    and "step parse ev s = Some s'"
  shows "disjoint_inv s' \<and> queued s' = []"
proof (cases ev)
  case (Scan r now)
  with assms show ?thesis
    by (auto simp: handleBarCodeScanned_def inv_scan_email queued_kept
        split: if_splits jsval.splits)
next
  case (Tick now)
  with assms show ?thesis by simp
next
  case Render
  with assms show ?thesis by simp
next
  case (Flush now)
  with assms show ?thesis
    by (auto simp: render_interval_tick inv_flush queued_kept)
next
  case Validate
  with assms show ?thesis
    by (auto simp: press_validate_quiet inv_validate queued_kept)
next
  case Clear
  with assms show ?thesis
    by (auto simp: press_clear_quiet inv_clear queued_kept)
qed

lemma inv_run:
  "disjoint_inv s \<Longrightarrow> queued s = [] \<Longrightarrow> list_all rendered_at_once evs \<Longrightarrow>
   run parse evs s = Some s' \<Longrightarrow> disjoint_inv s'"
proof (induction evs arbitrary: s)
  case Nil
  then show ?case by simp
next
  case (Cons ev evs)
  from Cons.prems obtain s1 where s1: "step parse ev s = Some s1" and r: "run parse evs s1 = Some s'"
    by (auto split: option.splits)
  have "disjoint_inv s1 \<and> queued s1 = []"
    using inv_step [OF Cons.prems(1,2) _ s1] Cons.prems(3) by simp
  with Cons.IH [of s1] Cons.prems(3) r show ?case
    by simp
qed

subsection \<open>The validated set only grows\<close>

lemma validated_apply_update:
  "set (validatedEmails s) \<subseteq> set (validatedEmails (apply_update u s))"
  by (cases u) (auto simp: set_foldl_set_add)

lemma validated_foldl_apply:
  "set (validatedEmails s) \<subseteq> set (validatedEmails (foldl (\<lambda>st u. apply_update u st) s us))"
proof (induction us arbitrary: s)
  case Nil
  then show ?case by simp
next
  case (Cons u us)
  have "set (validatedEmails s) \<subseteq> set (validatedEmails (apply_update u s))"
    by (rule validated_apply_update)
  also have "\<dots> \<subseteq> set (validatedEmails (foldl (\<lambda>st u. apply_update u st) (apply_update u s) us))"
    by (rule Cons.IH)
  finally show ?case by simp
qed

lemma validated_render: "set (validatedEmails s) \<subseteq> set (validatedEmails (render s))"
  using validated_foldl_apply [of s "queued s"] by (simp add: render_def)

lemma validated_interval_tick: "validatedEmails (interval_tick now s) = validatedEmails s"
  by (simp add: interval_tick_def prune_dedup_def Let_def)

lemma validated_press_validate:
  "set (validatedEmails s) \<subseteq> set (validatedEmails (press_validate s))"
proof (cases "length (pendingEmails s) = 0 \<or> isValidating s")
  case True
  then show ?thesis by (simp add: press_validate_def)
next
  case False
  let ?q = "s\<lparr>queued := queued s @
       [SetIsValidating True, AddValidated (pendingEmails s),
        MarkProcessed (pendingEmails s), EmptyPending, SetIsValidating False],
     submitted := submitted s @ [pendingEmails s]\<rparr>"
  have "set (validatedEmails ?q) \<subseteq> set (validatedEmails (render ?q))"
    by (rule validated_render)
  with False show ?thesis
    by (simp add: press_validate_def Let_def)
qed

lemma validated_press_clear:
  "set (validatedEmails s) \<subseteq> set (validatedEmails (press_clear s))"
  using validated_render [of "s\<lparr>queued := queued s @ [EmptyPending]\<rparr>"]
  by (simp add: press_clear_def)

lemma validated_mono_step:
  "step parse ev s = Some s' \<Longrightarrow> set (validatedEmails s) \<subseteq> set (validatedEmails s')"
proof (cases ev)
  case (Scan r now)
  assume "step parse ev s = Some s'"
  with Scan show ?thesis
    by (auto simp: handleBarCodeScanned_def scan_email_fields split: if_splits jsval.splits)
next
  case (Tick now)
  assume "step parse ev s = Some s'"
  with Tick show ?thesis by (auto simp: validated_interval_tick)
next
  case Render
  assume "step parse ev s = Some s'"
  with Render validated_render [of s] show ?thesis by auto
next
  case (Flush now)
  assume "step parse ev s = Some s'"
  with Flush validated_render [of "interval_tick now s"] show ?thesis
    by (auto simp: validated_interval_tick)
next
  case Validate
  assume "step parse ev s = Some s'"
  with Validate validated_press_validate [of s] show ?thesis by auto
next
  case Clear
  assume "step parse ev s = Some s'"
  with Clear validated_press_clear [of s] show ?thesis by auto
qed

lemma validated_mono_run:
  "run parse evs s = Some s' \<Longrightarrow> set (validatedEmails s) \<subseteq> set (validatedEmails s')"
proof (induction evs arbitrary: s)
  case Nil
  then show ?case by simp
next
  case (Cons ev evs)
  then show ?case by (fastforce split: option.splits dest: validated_mono_step)
qed

subsection \<open>The lists of every reachable state are Maps and Sets\<close>

lemma keys_map_set: "set (map fst (map_set k v m)) = insert k (set (map fst m))"
  by (induction m) auto

lemma distinct_map_set: "distinct (map fst m) \<Longrightarrow> distinct (map fst (map_set k v m))"
  by (induction m) (auto simp: keys_map_set [simplified])

lemma distinct_set_add: "distinct xs \<Longrightarrow> distinct (set_add e xs)"
  by (simp add: set_add_def)

lemma distinct_foldl_set_add:
  "distinct xs \<Longrightarrow> distinct (foldl (\<lambda>next e. set_add e next) xs ys)"
  by (induction ys arbitrary: xs) (simp_all add: distinct_set_add)

lemma wf_initial: "well_formed (initial active)"
  by (simp add: well_formed_def initial_def)

lemma wf_scan_email: "well_formed s \<Longrightarrow> well_formed (scan_email e r now s)"
  by (simp add: well_formed_def scan_email_def Let_def distinct_map_set distinct_set_add)

lemma wf_flush: "well_formed s \<Longrightarrow> well_formed (flush now s)"
  by (simp add: well_formed_def flush_def flush_overlays_def flush_pending_def prune_dedup_def
      Let_def distinct_foldl_set_add distinct_map_filter)

lemma wf_validate: "well_formed s \<Longrightarrow> well_formed (handleValidate s)"
  by (simp add: well_formed_def handleValidate_def Let_def distinct_foldl_set_add)

lemma wf_clear: "well_formed s \<Longrightarrow> well_formed (handleClearPending s)"
  by (simp add: well_formed_def handleClearPending_def)

lemma wf_apply_update: "well_formed s \<Longrightarrow> well_formed (apply_update u s)"
  by (cases u) (simp_all add: well_formed_def distinct_foldl_set_add)

lemma wf_foldl_apply:
  "well_formed s \<Longrightarrow> well_formed (foldl (\<lambda>st u. apply_update u st) s us)"
  by (induction us arbitrary: s) (simp_all add: wf_apply_update)

lemma wf_queued: "well_formed (s\<lparr>queued := q\<rparr>) = well_formed s"
  by (simp add: well_formed_def)

lemma wf_submitted: "well_formed (s\<lparr>submitted := q\<rparr>) = well_formed s"
  by (simp add: well_formed_def)

lemma wf_render: "well_formed s \<Longrightarrow> well_formed (render s)"
  by (simp add: render_def wf_queued wf_foldl_apply)

lemma wf_interval_tick: "well_formed s \<Longrightarrow> well_formed (interval_tick now s)"
  by (simp add: well_formed_def interval_tick_def prune_dedup_def Let_def distinct_map_filter)

lemma wf_press_validate: "well_formed s \<Longrightarrow> well_formed (press_validate s)"
  by (simp add: press_validate_def Let_def wf_render wf_queued wf_submitted)

lemma wf_press_clear: "well_formed s \<Longrightarrow> well_formed (press_clear s)"
  by (simp add: press_clear_def wf_render wf_queued)

lemma wf_step: "well_formed s \<Longrightarrow> step parse ev s = Some s' \<Longrightarrow> well_formed s'"
  by (cases ev)
    (auto simp: handleBarCodeScanned_def wf_scan_email wf_interval_tick wf_render
      wf_press_validate wf_press_clear split: if_splits jsval.splits)

lemma wf_run: "well_formed s \<Longrightarrow> run parse evs s = Some s' \<Longrightarrow> well_formed s'"
proof (induction evs arbitrary: s)
  case Nil
  then show ?case by simp
next
  case (Cons ev evs)
  then show ?case by (auto split: option.splits dest: wf_step)
qed

lemma wf_reachable: "run parse evs (initial active) = Some s \<Longrightarrow> well_formed s"
  using wf_run [OF wf_initial] .

subsection \<open>The dedup test\<close>

lemma dedup_within_window:
  assumes "map_of (lastSeenMap s) p = Some t1" and "t1 \<noteq> 0" and "t2 - t1 < DEDUP_WINDOW_MS"
    and "extract_email parse (result_data r) = JStr p"
  shows "handleBarCodeScanned parse r t2 s = Some s"
  using assms
  by (simp add: handleBarCodeScanned_def scan_email_suppressed recently_processed_iff)

lemma dedup_after_window:
  assumes "isActive s" and "\<not> isValidating s"
    and "map_of (lastSeenMap s) p = Some t1" and "DEDUP_WINDOW_MS \<le> t2 - t1"
    and "extract_email parse (result_data r) = JStr p"
  shows "handleBarCodeScanned parse r t2 s = Some (scan_email p r t2 s) \<and>
         map_of (lastSeenMap (scan_email p r t2 s)) p = Some t2 \<and>
         map_of (detectionBuffer (scan_email p r t2 s)) p =
           Some \<lparr>ov_id = p, ov_text = p, ov_bounds = raw_bounds r, lastSeen = t2,
                 processed = (p \<in> set (validatedEmails s))\<rparr>"
proof -
  have n: "\<not> recently_processed (lastSeenMap s) p t2"
    using assms(3,4) by (simp add: recently_processed_iff)
  show ?thesis
    using handleBarCodeScanned_live [OF assms(1,2,5)] scan_email_processed(1,2) [OF n]
    by simp
qed

subsection \<open>The overlays after a flush\<close>

lemma snd_set_fold_prev:
  "snd ` set (foldl (\<lambda>merged ov. if fresh c ov then map_set (ov_id ov) ov merged else merged) acc prev)
     \<subseteq> snd ` set acc \<union> {ov \<in> set prev. fresh c ov}"
proof (induction prev arbitrary: acc)
  case Nil
  then show ?case by simp
next
  case (Cons a prev)
  let ?f = "\<lambda>merged ov. if fresh c ov then map_set (ov_id ov) ov merged else merged"
  show ?case
  proof (cases "fresh c a")
    case True
    have "snd ` set (foldl ?f (map_set (ov_id a) a acc) prev)
            \<subseteq> snd ` set (map_set (ov_id a) a acc) \<union> {ov \<in> set prev. fresh c ov}"
      using Cons.IH .
    also have "\<dots> \<subseteq> insert a (snd ` set acc) \<union> {ov \<in> set prev. fresh c ov}"
      using snd_set_map_set [of "ov_id a" a acc] by blast
    also have "\<dots> \<subseteq> snd ` set acc \<union> {ov \<in> set (a # prev). fresh c ov}"
      using True by auto
    finally show ?thesis
      using True by simp
  next
    case False
    have "snd ` set (foldl ?f acc prev) \<subseteq> snd ` set acc \<union> {ov \<in> set prev. fresh c ov}"
      using Cons.IH .
    also have "\<dots> \<subseteq> snd ` set acc \<union> {ov \<in> set (a # prev). fresh c ov}"
      by auto
    finally show ?thesis
      using False by simp
  qed
qed

lemma snd_set_fold_snapshot:
  "snd ` set (foldl (\<lambda>merged e. map_set (fst e) (snd e) merged) acc snap)
     \<subseteq> snd ` set acc \<union> snd ` set snap"
proof (induction snap arbitrary: acc)
  case Nil
  then show ?case by simp
next
  case (Cons a snap)
  have "snd ` set (foldl (\<lambda>merged e. map_set (fst e) (snd e) merged) (map_set (fst a) (snd a) acc) snap)
          \<subseteq> snd ` set (map_set (fst a) (snd a) acc) \<union> snd ` set snap"
    using Cons.IH .
  also have "\<dots> \<subseteq> insert (snd a) (snd ` set acc) \<union> snd ` set snap"
    using snd_set_map_set [of "fst a" "snd a" acc] by blast
  also have "\<dots> \<subseteq> snd ` set acc \<union> snd ` set (a # snap)"
    by auto
  finally show ?case
    by simp
qed

lemma set_merge_overlays:
  "set (merge_overlays c prev snap) \<subseteq> {ov \<in> set prev. fresh c ov} \<union> snd ` set snap"
proof -
  let ?m0 = "foldl (\<lambda>merged ov. if fresh c ov then map_set (ov_id ov) ov merged else merged) [] prev"
  have "snd ` set (foldl (\<lambda>merged e. map_set (fst e) (snd e) merged) ?m0 snap)
          \<subseteq> snd ` set ?m0 \<union> snd ` set snap"
    using snd_set_fold_snapshot .
  also have "\<dots> \<subseteq> {ov \<in> set prev. fresh c ov} \<union> snd ` set snap"
    using snd_set_fold_prev [of c "[]" prev] by auto
  finally show ?thesis
    by (simp add: merge_overlays_def Let_def)
qed

lemma overlays_flush:
  "overlays (flush now s) =
     (if detectionBuffer s = [] then filter (fresh (now - OVERLAY_TTL_MS)) (overlays s)
      else merge_overlays (now - OVERLAY_TTL_MS) (overlays s) (detectionBuffer s))"
  by (simp add: flush_def flush_overlays_def flush_pending_def prune_dedup_def Let_def)

subsection \<open>Clear\<close>

lemma clear_fields:
  "pendingEmails (handleClearPending s) = []"
  "lastSeenMap (handleClearPending s) = lastSeenMap s"
  "detectionBuffer (handleClearPending s) = detectionBuffer s"
  "pendingBuffer (handleClearPending s) = pendingBuffer s"
  "validatedEmails (handleClearPending s) = validatedEmails s"
  "overlays (handleClearPending s) = overlays s"
  "isActive (handleClearPending s) = isActive s"
  "isValidating (handleClearPending s) = isValidating s"
  "submitted (handleClearPending s) = submitted s"
  by (simp_all add: handleClearPending_def)

lemma set_add_member: "e \<in> set (set_add e xs)"
  by (simp add: set_add_def)

subsection \<open>Extraction, bounds and rendering\<close>

lemma extract_email_cases:
  "parse d = None \<Longrightarrow> extract_email parse d = JStr d"
  "parse d = Some JNull \<Longrightarrow> extract_email parse d = JStr d"
  "parse d = Some (JObj fs) \<Longrightarrow> truthy (obj_field fs ''email'') \<Longrightarrow>
     extract_email parse d = obj_field fs ''email''"
  "parse d = Some (JObj fs) \<Longrightarrow> \<not> truthy (obj_field fs ''email'') \<Longrightarrow>
     truthy (obj_field fs ''Email'') \<Longrightarrow> extract_email parse d = obj_field fs ''Email''"
  "parse d = Some (JObj fs) \<Longrightarrow> \<not> truthy (obj_field fs ''email'') \<Longrightarrow>
     \<not> truthy (obj_field fs ''Email'') \<Longrightarrow> extract_email parse d = JStr d"
  by (simp_all add: extract_email_def email_of_parsed_def)

lemma extract_email_other:
  "parse d = Some v \<Longrightarrow> \<forall>fs. v \<noteq> JObj fs \<Longrightarrow> extract_email parse d = JStr d"
  by (cases v) (simp_all add: extract_email_def email_of_parsed_def)

lemma raw_bounds_missing:
  "result_bounds r = None \<Longrightarrow>
     raw_bounds r = \<lparr>bounds_x = 0, bounds_y = 0, bounds_width = 0, bounds_height = 0\<rparr>"
  "result_bounds r = Some b \<Longrightarrow> origin b = None \<Longrightarrow>
     bounds_x (raw_bounds r) = 0 \<and> bounds_y (raw_bounds r) = 0"
  "result_bounds r = Some b \<Longrightarrow> size_of b = None \<Longrightarrow>
     bounds_width (raw_bounds r) = 0 \<and> bounds_height (raw_bounds r) = 0"
  "result_bounds r = Some b \<Longrightarrow> origin b = Some pt \<Longrightarrow>
     bounds_x (raw_bounds r) = (case point_x pt of None \<Rightarrow> 0 | Some v \<Rightarrow> v) \<and>
     bounds_y (raw_bounds r) = (case point_y pt of None \<Rightarrow> 0 | Some v \<Rightarrow> v)"
  "result_bounds r = Some b \<Longrightarrow> size_of b = Some ex \<Longrightarrow>
     bounds_width (raw_bounds r) = (case extent_width ex of None \<Rightarrow> 0 | Some v \<Rightarrow> v) \<and>
     bounds_height (raw_bounds r) = (case extent_height ex of None \<Rightarrow> 0 | Some v \<Rightarrow> v)"
  by (simp_all add: raw_bounds_def)

lemma overlayElements_sized:
  "\<forall>el \<in> set (overlayElements ovs). el_width el \<noteq> 0 \<and> el_height el \<noteq> 0"
  by (auto simp: overlayElements_def)

lemma overlayElements_keys:
  "map el_key (overlayElements ovs) =
     map ov_id (filter (\<lambda>ov. bounds_width (ov_bounds ov) \<noteq> 0 \<and> bounds_height (ov_bounds ov) \<noteq> 0) ovs)"
  by (simp add: overlayElements_def comp_def)

section \<open>The claims\<close>

text \<open>
  Claim C1. When the pending set is not empty and no validation is in flight, Validate
  adds every pending email to the validated set, empties the pending set, calls onValidate
  once more, with the list of the pending emails, keeps every overlay and marks as
  processed each one whose id was pending. When the pending set is empty or a validation
  is in flight, Validate changes nothing.
\<close>

theorem validate_effect:
  "(pendingEmails s \<noteq> [] \<and> \<not> isValidating s \<longrightarrow>
      set (validatedEmails (handleValidate s)) = set (validatedEmails s) \<union> set (pendingEmails s) \<and>
      pendingEmails (handleValidate s) = [] \<and>
      submitted (handleValidate s) = submitted s @ [pendingEmails s] \<and>
      map ov_id (overlays (handleValidate s)) = map ov_id (overlays s) \<and>
      (\<forall>ov \<in> set (overlays (handleValidate s)).
          ov_id ov \<in> set (pendingEmails s) \<longrightarrow> processed ov)) \<and>
   (pendingEmails s = [] \<or> isValidating s \<longrightarrow> handleValidate s = s)"
  by (auto simp: handleValidate_def Let_def set_foldl_set_add comp_def)

theorem validate_effect_witness:
  "pendingEmails two_pending = [''a@x.eu'', ''b@x.eu''] \<and>
   isValidating two_pending = False \<and>
   set (validatedEmails (handleValidate two_pending)) = {''a@x.eu'', ''b@x.eu''} \<and>
   pendingEmails (handleValidate two_pending) = [] \<and>
   submitted (handleValidate two_pending) = [[''a@x.eu'', ''b@x.eu'']] \<and>
   map processed (overlays (handleValidate two_pending)) = [True, True] \<and>
   pendingEmails (initial True) = [] \<and>
   handleValidate (initial True) = initial True"
  using validate_effect [of two_pending] validate_effect [of "initial True"]
  by (simp add: validate_two_pending) (simp add: example_defs initial_def)

text \<open>
  Claim C2. No email is to be both validated and pending in any state of a session, and a
  validated email is never to be pending again. The scan callback tests the pending set of
  the last render: a scan handled after a tick has emptied the pending buffer and before
  the render of that tick finds the email in neither set and buffers it once more. The
  render makes the email pending, Validate validates it, and the next tick moves it from
  the pending buffer into the pending set, validated as it is.
\<close>

theorem validated_email_pending_again:
  "run sample_parse
     [Scan (det ''a@x.eu'' 10 10) 1000, Tick 1400, Scan (det ''a@x.eu'' 20 20) 1401, Render,
      Validate] (initial True) = Some race_validated \<and>
   validatedEmails race_validated = [''a@x.eu''] \<and>
   pendingEmails race_validated = [] \<and>
   run sample_parse [Tick 1800, Render] race_validated = Some race_pending \<and>
   validatedEmails race_pending = [''a@x.eu''] \<and>
   pendingEmails race_pending = [''a@x.eu'']"
  by (simp add: model_defs example_defs)

theorem validated_email_pending_again_witness:
  "isActive (initial True) \<and> \<not> isValidating (initial True) \<and>
   set (validatedEmails race_pending) \<inter> set (pendingEmails race_pending) = {''a@x.eu''} \<and>
   map_option pendingEmails
     (run sample_parse
        [Scan (det ''a@x.eu'' 10 10) 1000, Tick 1400, Render, Scan (det ''a@x.eu'' 20 20) 1401,
         Validate, Tick 1800, Render] (initial True)) = Some []"
  using validated_email_pending_again
  by (simp add: model_defs example_defs)

text \<open>
  Claim C3. In a state where the dedup map holds the time \<open>t1\<close> of the last processed
  detection of an email, \<open>t1\<close> a clock reading other than 0: a detection of that email
  less than the dedup window after \<open>t1\<close> changes nothing at all; one that comes at least
  the window after \<open>t1\<close>, on an active scanner, is processed, that is it records the new
  time, writes the detection buffer entry, and buffers the email for the pending set
  unless it is validated or pending.
\<close>

theorem dedup_window:
  assumes "map_of (lastSeenMap s) p = Some t1" and "t1 \<noteq> 0"
    and "extract_email parse (result_data r) = JStr p"
  shows "(t2 - t1 < DEDUP_WINDOW_MS \<longrightarrow> handleBarCodeScanned parse r t2 s = Some s) \<and>
         (DEDUP_WINDOW_MS \<le> t2 - t1 \<and> isActive s \<and> \<not> isValidating s \<longrightarrow>
            (\<exists>s'. handleBarCodeScanned parse r t2 s = Some s' \<and>
                  map_of (lastSeenMap s') p = Some t2 \<and>
                  map_of (detectionBuffer s') p =
                    Some \<lparr>ov_id = p, ov_text = p, ov_bounds = raw_bounds r, lastSeen = t2,
                          processed = (p \<in> set (validatedEmails s))\<rparr> \<and>
                  pendingBuffer s' =
                    (if p \<notin> set (validatedEmails s) \<and> p \<notin> set (pendingEmails s)
                     then set_add p (pendingBuffer s) else pendingBuffer s)))"
proof -
  have a: "handleBarCodeScanned parse r t2 s = Some s" if "t2 - t1 < DEDUP_WINDOW_MS"
    using dedup_within_window [OF assms(1,2) that assms(3)] .
  have b: "\<exists>s'. handleBarCodeScanned parse r t2 s = Some s' \<and>
                  map_of (lastSeenMap s') p = Some t2 \<and>
                  map_of (detectionBuffer s') p =
                    Some \<lparr>ov_id = p, ov_text = p, ov_bounds = raw_bounds r, lastSeen = t2,
                          processed = (p \<in> set (validatedEmails s))\<rparr> \<and>
                  pendingBuffer s' =
                    (if p \<notin> set (validatedEmails s) \<and> p \<notin> set (pendingEmails s)
                     then set_add p (pendingBuffer s) else pendingBuffer s)"
    if w: "DEDUP_WINDOW_MS \<le> t2 - t1" and l: "isActive s" "\<not> isValidating s"
  proof -
    have n: "\<not> recently_processed (lastSeenMap s) p t2"
      using assms(1) w by (simp add: recently_processed_iff)
    from dedup_after_window [OF l assms(1) w assms(3)] scan_email_processed(3) [OF n, of r]
    show ?thesis by blast
  qed
  from a b show ?thesis by blast
qed

theorem dedup_window_witness:
  "handleBarCodeScanned sample_parse (det ''x@epitech.eu'' 10 10) 1000 (initial True) = Some x_seen \<and>
   map_of (lastSeenMap x_seen) ''x@epitech.eu'' = Some 1000 \<and>
   (1000::int) \<noteq> 0 \<and> (1100::int) - 1000 < DEDUP_WINDOW_MS \<and>
   handleBarCodeScanned sample_parse (det ''x@epitech.eu'' 20 20) 1100 x_seen = Some x_seen \<and>
   DEDUP_WINDOW_MS \<le> 1300 - 1000 \<and> isActive x_seen \<and> \<not> isValidating x_seen \<and>
   handleBarCodeScanned sample_parse (det ''x@epitech.eu'' 20 20) 1300 x_seen = Some x_seen_again \<and>
   map_of (lastSeenMap x_seen_again) ''x@epitech.eu'' = Some 1300 \<and>
   map_of (detectionBuffer x_seen_again) ''x@epitech.eu''
     = Some (box ''x@epitech.eu'' 20 20 1300 False)"
proof -
  have m: "map_of (lastSeenMap x_seen) ''x@epitech.eu'' = Some 1000"
    by (simp add: x_seen_def)
  have z: "(1000::int) \<noteq> 0"
    by simp
  have e: "extract_email sample_parse (result_data (det ''x@epitech.eu'' 20 20)) = JStr ''x@epitech.eu''"
    by (simp add: model_defs example_defs)
  have w: "(1100::int) - 1000 < DEDUP_WINDOW_MS"
    by (simp add: DEDUP_WINDOW_MS_def)
  have first: "handleBarCodeScanned sample_parse (det ''x@epitech.eu'' 10 10) 1000 (initial True)
      = Some x_seen"
    by (simp add: model_defs example_defs)
  have within: "handleBarCodeScanned sample_parse (det ''x@epitech.eu'' 20 20) 1100 x_seen = Some x_seen"
    using dedup_window [OF m z e, of 1100] w by blast
  have after: "handleBarCodeScanned sample_parse (det ''x@epitech.eu'' 20 20) 1300 x_seen
      = Some x_seen_again"
    by (simp add: model_defs example_defs)
  have rest: "DEDUP_WINDOW_MS \<le> 1300 - 1000" "isActive x_seen" "\<not> isValidating x_seen"
    "map_of (lastSeenMap x_seen_again) ''x@epitech.eu'' = Some 1300"
    "map_of (detectionBuffer x_seen_again) ''x@epitech.eu''
       = Some (box ''x@epitech.eu'' 20 20 1300 False)"
    by (simp_all add: example_defs DEDUP_WINDOW_MS_def)
  from first m z w within rest after show ?thesis
    by (intro conjI)
qed

text \<open>
  Claim C4. A detection of a validated email that passes the dedup test writes the
  detection buffer entry with the processed flag set and does not add the email to the
  pending buffer, from which the claim concludes that the email is never pending again.
  In the run of claim C2 the email is validated while the pending buffer still holds it:
  the detection at 1701 does what the claim says, and the next tick makes the validated
  email pending.
\<close>

theorem validated_rescan_pending_again:
  "run sample_parse
     [Scan (det ''a@x.eu'' 10 10) 1000, Tick 1400, Scan (det ''a@x.eu'' 20 20) 1401, Render,
      Validate] (initial True) = Some race_validated \<and>
   ''a@x.eu'' \<in> set (validatedEmails race_validated) \<and>
   recently_processed (lastSeenMap race_validated) ''a@x.eu'' 1701 = False \<and>
   handleBarCodeScanned sample_parse (det ''a@x.eu'' 30 30) 1701 race_validated
     = Some race_rescanned \<and>
   map_of (detectionBuffer race_rescanned) ''a@x.eu'' = Some (box ''a@x.eu'' 30 30 1701 True) \<and>
   pendingBuffer race_rescanned = pendingBuffer race_validated \<and>
   run sample_parse [Tick 1800, Render] race_rescanned = Some race_repending \<and>
   ''a@x.eu'' \<in> set (pendingEmails race_repending)"
  by (simp add: model_defs example_defs)

theorem validated_rescan_pending_again_witness:
  "isActive race_validated \<and> \<not> isValidating race_validated \<and>
   pendingBuffer race_validated = [''a@x.eu''] \<and>
   pendingBuffer race_rescanned = [''a@x.eu''] \<and>
   pendingEmails race_rescanned = [] \<and>
   pendingEmails race_repending = [''a@x.eu''] \<and>
   validatedEmails race_repending = [''a@x.eu'']"
  using validated_rescan_pending_again
  by (simp add: example_defs)

text \<open>
  Claim C5, as stated, fails: the flush merges every entry of the detection buffer,
  whatever its age. A detection at 1000 flushed at 5000 is shown although its last-seen
  time precedes 5000 - 2000.
\<close>

theorem stale_detection_shown:
  "run sample_parse [Scan (det ''x@epitech.eu'' 10 10) 1000, Flush 5000] (initial True)
     = Some first_shown \<and>
   overlays first_shown = [box ''x@epitech.eu'' 10 10 1000 False] \<and>
   lastSeen (box ''x@epitech.eu'' 10 10 1000 False) < 5000 - OVERLAY_TTL_MS"
  by (simp add: model_defs example_defs)

text \<open>
  Claim C5, amended. After a flush tick at time \<open>now\<close> every overlay either was last
  seen after \<open>now - OVERLAY_TTL_MS\<close> or is an entry the tick took from the detection
  buffer. So when every entry of the detection buffer was last seen after
  \<open>now - OVERLAY_TTL_MS\<close>, no overlay last seen at or before that time is left; and a tick
  with an empty detection buffer keeps exactly the overlays last seen after
  \<open>now - OVERLAY_TTL_MS\<close>, unchanged, and removes the others.
\<close>

theorem flush_overlays_fresh:
  "(\<forall>ov \<in> set (overlays (flush now s)).
       now - OVERLAY_TTL_MS < lastSeen ov \<or> ov \<in> snd ` set (detectionBuffer s)) \<and>
   ((\<forall>e \<in> set (detectionBuffer s). now - OVERLAY_TTL_MS < lastSeen (snd e)) \<longrightarrow>
      (\<forall>ov \<in> set (overlays (flush now s)). now - OVERLAY_TTL_MS < lastSeen ov)) \<and>
   (detectionBuffer s = [] \<longrightarrow>
      overlays (flush now s) = filter (\<lambda>ov. now - OVERLAY_TTL_MS < lastSeen ov) (overlays s))"
proof -
  have "set (overlays (flush now s))
          \<subseteq> {ov \<in> set (overlays s). fresh (now - OVERLAY_TTL_MS) ov} \<union> snd ` set (detectionBuffer s)"
    using set_merge_overlays [of "now - OVERLAY_TTL_MS" "overlays s" "detectionBuffer s"]
    by (auto simp: overlays_flush)
  then have a: "\<forall>ov \<in> set (overlays (flush now s)).
       now - OVERLAY_TTL_MS < lastSeen ov \<or> ov \<in> snd ` set (detectionBuffer s)"
    by (auto simp: fresh_def)
  have b: "detectionBuffer s = [] \<longrightarrow>
      overlays (flush now s) = filter (\<lambda>ov. now - OVERLAY_TTL_MS < lastSeen ov) (overlays s)"
    by (simp add: overlays_flush fresh_def [abs_def])
  from a have c: "(\<forall>e \<in> set (detectionBuffer s). now - OVERLAY_TTL_MS < lastSeen (snd e)) \<longrightarrow>
      (\<forall>ov \<in> set (overlays (flush now s)). now - OVERLAY_TTL_MS < lastSeen ov)"
    by auto
  from a b c show ?thesis by blast
qed

theorem flush_overlays_fresh_witness:
  "overlays (flush 2400 a_rescanned) = [box ''a@x.eu'' 30 30 2000 True, box ''b@x.eu'' 60 10 1010 True] \<and>
   2400 - OVERLAY_TTL_MS < lastSeen (box ''a@x.eu'' 30 30 2000 True) \<and>
   2400 - OVERLAY_TTL_MS < lastSeen (box ''b@x.eu'' 60 10 1010 True) \<and>
   map (lastSeen \<circ> snd) (detectionBuffer a_rescanned) = [2000] \<and>
   detectionBuffer a_reshown = [] \<and>
   overlays a_reshown = [box ''a@x.eu'' 30 30 2000 True, box ''b@x.eu'' 60 10 1010 True] \<and>
   overlays (flush 3500 a_reshown) = [box ''a@x.eu'' 30 30 2000 True]"
  using flush_overlays_fresh [of 2400 a_rescanned] flush_overlays_fresh [of 3500 a_reshown]
  by (simp add: flush_a_rescanned) (simp add: example_defs OVERLAY_TTL_MS_def)

text \<open>
  Claim C6, as stated, fails: the dedup test comes before the write of the detection
  buffer. With clock readings 1000, 1100 and 1250 the overlay after the flush has the
  bounds of the first detection; with readings 0, 100 and 250 those of the second (the
  timestamp 0 is falsy); in neither run those of the third.
\<close>

theorem third_detection_not_shown:
  "run sample_parse
     [Scan (det ''x@epitech.eu'' 10 10) 1000, Scan (det ''x@epitech.eu'' 20 20) 1100,
      Scan (det ''x@epitech.eu'' 30 30) 1250, Flush 1400] (initial True) = Some first_shown \<and>
   map ov_bounds (overlays first_shown) = [raw_bounds (det ''x@epitech.eu'' 10 10)] \<and>
   raw_bounds (det ''x@epitech.eu'' 10 10) \<noteq> raw_bounds (det ''x@epitech.eu'' 30 30) \<and>
   run sample_parse
     [Scan (det ''x@epitech.eu'' 10 10) 0, Scan (det ''x@epitech.eu'' 20 20) 100,
      Scan (det ''x@epitech.eu'' 30 30) 250, Flush 400] (initial True) = Some second_shown \<and>
   map ov_bounds (overlays second_shown) = [raw_bounds (det ''x@epitech.eu'' 20 20)] \<and>
   raw_bounds (det ''x@epitech.eu'' 20 20) \<noteq> raw_bounds (det ''x@epitech.eu'' 30 30)"
  by (simp add: model_defs example_defs)

text \<open>
  Claim C6, amended. From the initial state of an active scanner, detections of one email
  at the clock readings \<open>T\<close>, \<open>T + 100\<close> and \<open>T + 250\<close>, with \<open>T\<close> not 0: the
  second and the third are suppressed and change nothing, so only the first one writes
  the pending buffer, the detection buffer and the dedup entry, and after the next flush
  tick the one overlay of that email has the bounds and the time of the first detection.
\<close>

theorem dedup_scenario:
  assumes "T \<noteq> 0"
    and "extract_email parse (result_data r1) = JStr p"
    and "extract_email parse (result_data r2) = JStr p"
    and "extract_email parse (result_data r3) = JStr p"
  shows "run parse [Scan r1 T] (initial True) = Some (scan_email p r1 T (initial True)) \<and>
         run parse [Scan r1 T, Scan r2 (T + 100)] (initial True)
           = Some (scan_email p r1 T (initial True)) \<and>
         run parse [Scan r1 T, Scan r2 (T + 100), Scan r3 (T + 250)] (initial True)
           = Some (scan_email p r1 T (initial True)) \<and>
         pendingBuffer (scan_email p r1 T (initial True)) = [p] \<and>
         lastSeenMap (scan_email p r1 T (initial True)) = [(p, T)] \<and>
         overlays (flush now (scan_email p r1 T (initial True)))
           = [\<lparr>ov_id = p, ov_text = p, ov_bounds = raw_bounds r1, lastSeen = T,
               processed = False\<rparr>] \<and>
         pendingEmails (flush now (scan_email p r1 T (initial True))) = [p]"
  using assms
  by (simp add: handleBarCodeScanned_def scan_email_def recently_processed_def flush_def
      flush_overlays_def flush_pending_def prune_dedup_def merge_overlays_def set_add_def
      initial_def DEDUP_WINDOW_MS_def Let_def)

theorem dedup_scenario_witness:
  "(1000::int) \<noteq> 0 \<and>
   run sample_parse
     [Scan (det ''x@epitech.eu'' 10 10) 1000, Scan (det ''x@epitech.eu'' 20 20) 1100,
      Scan (det ''x@epitech.eu'' 30 30) 1250] (initial True)
     = Some (scan_email ''x@epitech.eu'' (det ''x@epitech.eu'' 10 10) 1000 (initial True)) \<and>
   pendingBuffer (scan_email ''x@epitech.eu'' (det ''x@epitech.eu'' 10 10) 1000 (initial True))
     = [''x@epitech.eu''] \<and>
   overlays (flush 1400 (scan_email ''x@epitech.eu'' (det ''x@epitech.eu'' 10 10) 1000 (initial True)))
     = [box ''x@epitech.eu'' 10 10 1000 False]"
proof -
  have e: "extract_email sample_parse (result_data (det ''x@epitech.eu'' px py)) = JStr ''x@epitech.eu''"
    for px py
    by (simp add: model_defs example_defs)
  have z: "(1000::int) \<noteq> 0"
    by simp
  have b: "\<lparr>ov_id = ''x@epitech.eu'', ov_text = ''x@epitech.eu'',
            ov_bounds = raw_bounds (det ''x@epitech.eu'' 10 10), lastSeen = 1000,
            processed = False\<rparr> = box ''x@epitech.eu'' 10 10 1000 False"
    by (simp add: box_def det_def raw_bounds_def)
  from dedup_scenario [OF z e e e, of 10 10 20 20 30 30 1400] b show ?thesis
    by simp
qed

text \<open>
  Claim C7. Clear empties the pending set and leaves the dedup map, the detection buffer,
  the validated set and the overlays as they were. After it, a detection of an email that
  is not validated, arriving when the dedup window has elapsed since the last processed
  detection of that email, puts the email in the pending buffer, and the next flush tick
  puts it in the pending set.
\<close>

theorem clear_effect:
  "pendingEmails (handleClearPending s) = [] \<and>
   lastSeenMap (handleClearPending s) = lastSeenMap s \<and>
   detectionBuffer (handleClearPending s) = detectionBuffer s \<and>
   validatedEmails (handleClearPending s) = validatedEmails s \<and>
   overlays (handleClearPending s) = overlays s \<and>
   (isActive s \<and> \<not> isValidating s \<and>
    extract_email parse (result_data r) = JStr p \<and>
    p \<notin> set (validatedEmails s) \<and>
    (\<forall>prev. map_of (lastSeenMap s) p = Some prev \<longrightarrow> DEDUP_WINDOW_MS \<le> now - prev) \<longrightarrow>
    (\<exists>s1. handleBarCodeScanned parse r now (handleClearPending s) = Some s1 \<and>
          p \<in> set (pendingBuffer s1) \<and>
          p \<in> set (pendingEmails (flush now' s1))))"
proof -
  let ?c = "handleClearPending s"
  let ?s1 = "scan_email p r now ?c"
  have later: "handleBarCodeScanned parse r now ?c = Some ?s1 \<and>
      p \<in> set (pendingBuffer ?s1) \<and> p \<in> set (pendingEmails (flush now' ?s1))"
    if a: "isActive s" "\<not> isValidating s"
      and e: "extract_email parse (result_data r) = JStr p"
      and v: "p \<notin> set (validatedEmails s)"
      and d: "\<forall>prev. map_of (lastSeenMap s) p = Some prev \<longrightarrow> DEDUP_WINDOW_MS \<le> now - prev"
  proof -
    have n: "\<not> recently_processed (lastSeenMap ?c) p now"
      using d by (auto simp: recently_processed_def clear_fields split: option.splits)
    have live: "handleBarCodeScanned parse r now ?c = Some ?s1"
      using a e by (simp add: handleBarCodeScanned_def clear_fields)
    have b: "p \<in> set (pendingBuffer ?s1)"
      using scan_email_processed(3) [OF n, of r] v by (simp add: clear_fields set_add_member)
    then have "p \<in> set (pendingEmails (flush now' ?s1))"
      by (simp add: flush_fields)
    with live b show ?thesis by simp
  qed
  then show ?thesis
    by (auto simp: clear_fields)
qed

theorem clear_effect_witness:
  "pendingEmails two_pending = [''a@x.eu'', ''b@x.eu''] \<and>
   map_option pendingEmails (run sample_parse [Clear] two_pending) = Some [] \<and>
   map_option validatedEmails (run sample_parse [Clear] two_pending) = Some (validatedEmails two_pending) \<and>
   map_option lastSeenMap (run sample_parse [Clear] two_pending) = Some (lastSeenMap two_pending) \<and>
   map_option overlays (run sample_parse [Clear] two_pending) = Some (overlays two_pending) \<and>
   map_of (lastSeenMap two_pending) ''a@x.eu'' = Some 1000 \<and>
   DEDUP_WINDOW_MS \<le> 2000 - 1000 \<and>
   map_option pendingBuffer
     (run sample_parse [Clear, Scan (det ''a@x.eu'' 30 30) 2000] two_pending) = Some [''a@x.eu''] \<and>
   map_option pendingEmails
     (run sample_parse [Clear, Scan (det ''a@x.eu'' 30 30) 2000, Flush 2400] two_pending)
     = Some [''a@x.eu'']"
  using clear_effect [of two_pending sample_parse "det ''a@x.eu'' 30 30" "''a@x.eu''" 2000 2400]
  by (simp add: model_defs example_defs)

text \<open>
  Claim C8. A flush tick that starts with both buffers empty, repeated at the same time,
  changes nothing the second time.
\<close>

theorem flush_twice:
  assumes "detectionBuffer s = []" and "pendingBuffer s = []"
  shows "flush now (flush now s) = flush now s"
  using assms
  by (simp add: flush_def flush_overlays_def flush_pending_def prune_dedup_def Let_def)

theorem flush_twice_witness:
  "detectionBuffer a_reshown = [] \<and> pendingBuffer a_reshown = [] \<and>
   flush 3500 (flush 3500 a_reshown) = flush 3500 a_reshown \<and>
   overlays (flush 3500 a_reshown) = [box ''a@x.eu'' 30 30 2000 True] \<and>
   flush 3500 a_reshown \<noteq> a_reshown"
proof -
  have e: "detectionBuffer a_reshown = []" "pendingBuffer a_reshown = []"
    by (simp_all add: a_reshown_def)
  have o: "overlays (flush 3500 a_reshown) = [box ''a@x.eu'' 30 30 2000 True]"
    by (simp add: model_defs example_defs)
  have "overlays a_reshown \<noteq> [box ''a@x.eu'' 30 30 2000 True]"
    by (simp add: example_defs)
  with o have "flush 3500 a_reshown \<noteq> a_reshown"
    by auto
  with flush_twice [OF e, of 3500] e o show ?thesis
    by simp
qed

text \<open>
  Claim C9, as stated, fails: the callback takes \<open>parsed.email || parsed.Email || data\<close>,
  so an email field that is present but falsy is passed over. The input \<open>{"email":""}\<close>
  parses to an object with an email field, the empty string, and the payload is the raw
  text, not that field.
\<close>

theorem empty_email_field_not_payload:
  \<open>sample_parse ''{"email":""}'' = Some (JObj [(''email'', JStr '''')]) \<and>
   obj_field [(''email'', JStr '''')] ''email'' = JStr '''' \<and>
   extract_email sample_parse ''{"email":""}'' = JStr ''{"email":""}'' \<and>
   extract_email sample_parse ''{"email":""}'' \<noteq> JStr ''''\<close>
  by (simp add: model_defs example_defs)

text \<open>
  Claim C9, amended. The extraction returns a value for every input: the raw decoded string
  when JSON.parse throws, when the parsed value is null or is not an object, and when
  neither field of the parsed object is truthy; the email field of the parsed object when
  that field is truthy; otherwise its Email field when that one is truthy. A missing part
  of the bounds gives 0 for the coordinates under it, a result with no bounds the region
  with x, y, width and height 0. The rendering skips every overlay of width 0 or height 0
  and gives one element for each other overlay.
\<close>

theorem extraction_and_bounds:
  "(parse d = None \<longrightarrow> extract_email parse d = JStr d) \<and>
   (parse d = Some JNull \<longrightarrow> extract_email parse d = JStr d) \<and>
   (parse d = Some (JObj fs) \<and> truthy (obj_field fs ''email'') \<longrightarrow>
      extract_email parse d = obj_field fs ''email'') \<and>
   (parse d = Some (JObj fs) \<and> \<not> truthy (obj_field fs ''email'') \<and>
      truthy (obj_field fs ''Email'') \<longrightarrow> extract_email parse d = obj_field fs ''Email'') \<and>
   (parse d = Some (JObj fs) \<and> \<not> truthy (obj_field fs ''email'') \<and>
      \<not> truthy (obj_field fs ''Email'') \<longrightarrow> extract_email parse d = JStr d) \<and>
   (parse d = Some v \<and> (\<forall>fs'. v \<noteq> JObj fs') \<longrightarrow> extract_email parse d = JStr d) \<and>
   (result_bounds r = None \<longrightarrow>
      raw_bounds r = \<lparr>bounds_x = 0, bounds_y = 0, bounds_width = 0, bounds_height = 0\<rparr>) \<and>
   (result_bounds r = Some b \<and> origin b = None \<longrightarrow>
      bounds_x (raw_bounds r) = 0 \<and> bounds_y (raw_bounds r) = 0) \<and>
   (result_bounds r = Some b \<and> size_of b = None \<longrightarrow>
      bounds_width (raw_bounds r) = 0 \<and> bounds_height (raw_bounds r) = 0) \<and>
   (result_bounds r = Some b \<and> origin b = Some pt \<longrightarrow>
      bounds_x (raw_bounds r) = (case point_x pt of None \<Rightarrow> 0 | Some c \<Rightarrow> c) \<and>
      bounds_y (raw_bounds r) = (case point_y pt of None \<Rightarrow> 0 | Some c \<Rightarrow> c)) \<and>
   (result_bounds r = Some b \<and> size_of b = Some ex \<longrightarrow>
      bounds_width (raw_bounds r) = (case extent_width ex of None \<Rightarrow> 0 | Some c \<Rightarrow> c) \<and>
      bounds_height (raw_bounds r) = (case extent_height ex of None \<Rightarrow> 0 | Some c \<Rightarrow> c)) \<and>
   (\<forall>el \<in> set (overlayElements ovs). el_width el \<noteq> 0 \<and> el_height el \<noteq> 0) \<and>
   map el_key (overlayElements ovs) =
     map ov_id (filter (\<lambda>ov. bounds_width (ov_bounds ov) \<noteq> 0 \<and> bounds_height (ov_bounds ov) \<noteq> 0) ovs)"
proof (intro conjI impI)
  show "map el_key (overlayElements ovs) =
     map ov_id (filter (\<lambda>ov. bounds_width (ov_bounds ov) \<noteq> 0 \<and> bounds_height (ov_bounds ov) \<noteq> 0) ovs)"
    by (rule overlayElements_keys)
  show "\<forall>el \<in> set (overlayElements ovs). el_width el \<noteq> 0 \<and> el_height el \<noteq> 0"
    by (rule overlayElements_sized)
qed (simp_all add: extract_email_cases extract_email_other raw_bounds_missing)

theorem extraction_and_bounds_witness:
  \<open>sample_parse ''x@epitech.eu'' = None \<and>
   extract_email sample_parse ''x@epitech.eu'' = JStr ''x@epitech.eu'' \<and>
   sample_parse ''null'' = Some JNull \<and>
   extract_email sample_parse ''null'' = JStr ''null'' \<and>
   extract_email sample_parse ''{"email":"a@x.eu"}'' = JStr ''a@x.eu'' \<and>
   extract_email sample_parse ''{"email":"","Email":"b@x.eu"}'' = JStr ''b@x.eu'' \<and>
   extract_email sample_parse ''{"name":"a"}'' = JStr ''{"name":"a"}'' \<and>
   extract_email sample_parse ''42'' = JStr ''42'' \<and>
   raw_bounds \<lparr>result_data = ''c@x.eu'', result_bounds = None\<rparr>
     = \<lparr>bounds_x = 0, bounds_y = 0, bounds_width = 0, bounds_height = 0\<rparr> \<and>
   raw_bounds \<lparr>result_data = ''c@x.eu'',
               result_bounds = Some \<lparr>origin = None,
                 size_of = Some \<lparr>extent_width = Some 40, extent_height = None\<rparr>\<rparr>\<rparr>
     = \<lparr>bounds_x = 0, bounds_y = 0, bounds_width = 40, bounds_height = 0\<rparr> \<and>
   map_option overlays
     (run sample_parse [Scan \<lparr>result_data = ''c@x.eu'', result_bounds = None\<rparr> 1000, Flush 1400]
        (initial True))
     = Some [\<lparr>ov_id = ''c@x.eu'', ov_text = ''c@x.eu'',
              ov_bounds = \<lparr>bounds_x = 0, bounds_y = 0, bounds_width = 0, bounds_height = 0\<rparr>,
              lastSeen = 1000, processed = False\<rparr>] \<and>
   map el_key (overlayElements
     [\<lparr>ov_id = ''c@x.eu'', ov_text = ''c@x.eu'',
       ov_bounds = \<lparr>bounds_x = 0, bounds_y = 0, bounds_width = 0, bounds_height = 0\<rparr>,
       lastSeen = 1000, processed = False\<rparr>,
      box ''a@x.eu'' 10 10 1000 False]) = [''a@x.eu'']\<close>
proof -
  note raw = extraction_and_bounds [THEN conjunct1, rule_format]
  note null = extraction_and_bounds [THEN conjunct2, THEN conjunct1, rule_format]
  have p1: "sample_parse ''x@epitech.eu'' = None"
    by (simp add: example_defs)
  have p2: "sample_parse ''null'' = Some JNull"
    by (simp add: example_defs)
  have e1: "extract_email sample_parse ''x@epitech.eu'' = JStr ''x@epitech.eu''"
    using p1 by (rule raw)
  have e2: "extract_email sample_parse ''null'' = JStr ''null''"
    using p2 by (rule null)
  have e3: \<open>extract_email sample_parse ''{"email":"a@x.eu"}'' = JStr ''a@x.eu''\<close>
    by (simp add: model_defs example_defs)
  have e4: \<open>extract_email sample_parse ''{"email":"","Email":"b@x.eu"}'' = JStr ''b@x.eu''\<close>
    by (simp add: model_defs example_defs)
  have e5: \<open>extract_email sample_parse ''{"name":"a"}'' = JStr ''{"name":"a"}''\<close>
    by (simp add: model_defs example_defs)
  have e6: "extract_email sample_parse ''42'' = JStr ''42''"
    by (simp add: model_defs example_defs)
  have b1: "raw_bounds \<lparr>result_data = ''c@x.eu'', result_bounds = None\<rparr>
     = \<lparr>bounds_x = 0, bounds_y = 0, bounds_width = 0, bounds_height = 0\<rparr>"
    by (simp add: raw_bounds_def)
  have b2: "raw_bounds \<lparr>result_data = ''c@x.eu'',
               result_bounds = Some \<lparr>origin = None,
                 size_of = Some \<lparr>extent_width = Some 40, extent_height = None\<rparr>\<rparr>\<rparr>
     = \<lparr>bounds_x = 0, bounds_y = 0, bounds_width = 40, bounds_height = 0\<rparr>"
    by (simp add: raw_bounds_def)
  have r: "map_option overlays
     (run sample_parse [Scan \<lparr>result_data = ''c@x.eu'', result_bounds = None\<rparr> 1000, Flush 1400]
        (initial True))
     = Some [\<lparr>ov_id = ''c@x.eu'', ov_text = ''c@x.eu'',
              ov_bounds = \<lparr>bounds_x = 0, bounds_y = 0, bounds_width = 0, bounds_height = 0\<rparr>,
              lastSeen = 1000, processed = False\<rparr>]"
    by (simp add: model_defs example_defs)
  have k: "map el_key (overlayElements
     [\<lparr>ov_id = ''c@x.eu'', ov_text = ''c@x.eu'',
       ov_bounds = \<lparr>bounds_x = 0, bounds_y = 0, bounds_width = 0, bounds_height = 0\<rparr>,
       lastSeen = 1000, processed = False\<rparr>,
      box ''a@x.eu'' 10 10 1000 False]) = [''a@x.eu'']"
    by (simp add: overlayElements_def box_def)
  from p1 e1 p2 e2 e3 e4 e5 e6 b1 b2 r k show ?thesis
    by (intro conjI)
qed

text \<open>
  Claim C10. Clear leaves the pending buffer as it was: every email of the pending buffer
  is in the pending set after Clear and the next flush tick. So an email detected and
  buffered before Clear is not pending after Clear, and is pending after the next flush
  tick, with no detection in between.
\<close>

theorem clear_keeps_pending_buffer:
  "pendingBuffer (handleClearPending s) = pendingBuffer s \<and>
   pendingEmails (handleClearPending s) = [] \<and>
   (\<forall>p \<in> set (pendingBuffer s). p \<in> set (pendingEmails (flush now (handleClearPending s)))) \<and>
   (isActive s \<and> \<not> isValidating s \<and>
    extract_email parse (result_data r) = JStr p \<and>
    p \<notin> set (validatedEmails s) \<and> p \<notin> set (pendingEmails s) \<and>
    \<not> recently_processed (lastSeenMap s) p t \<longrightarrow>
    (\<exists>s1. handleBarCodeScanned parse r t s = Some s1 \<and>
          p \<notin> set (pendingEmails (handleClearPending s1)) \<and>
          p \<in> set (pendingEmails (flush now (handleClearPending s1)))))"
proof -
  let ?s1 = "scan_email p r t s"
  have later: "handleBarCodeScanned parse r t s = Some ?s1 \<and>
      p \<notin> set (pendingEmails (handleClearPending ?s1)) \<and>
      p \<in> set (pendingEmails (flush now (handleClearPending ?s1)))"
    if a: "isActive s" "\<not> isValidating s"
      and e: "extract_email parse (result_data r) = JStr p"
      and v: "p \<notin> set (validatedEmails s)" "p \<notin> set (pendingEmails s)"
      and n: "\<not> recently_processed (lastSeenMap s) p t"
  proof -
    have live: "handleBarCodeScanned parse r t s = Some ?s1"
      using handleBarCodeScanned_live [OF a e] .
    have "p \<in> set (pendingBuffer ?s1)"
      using scan_email_processed(3) [OF n, of r] v by (simp add: set_add_member)
    then have "p \<in> set (pendingEmails (flush now (handleClearPending ?s1)))"
      by (simp add: flush_fields clear_fields)
    with live show ?thesis
      by (simp add: clear_fields)
  qed
  have "\<forall>p \<in> set (pendingBuffer s). p \<in> set (pendingEmails (flush now (handleClearPending s)))"
    by (simp add: flush_fields clear_fields)
  with later show ?thesis
    by (auto simp: clear_fields)
qed

theorem clear_keeps_pending_buffer_witness:
  "map_option pendingBuffer
     (run sample_parse [Scan (det ''a@x.eu'' 10 10) 1000] (initial True)) = Some [''a@x.eu''] \<and>
   map_option pendingBuffer
     (run sample_parse [Scan (det ''a@x.eu'' 10 10) 1000, Clear] (initial True)) = Some [''a@x.eu''] \<and>
   map_option pendingEmails
     (run sample_parse [Scan (det ''a@x.eu'' 10 10) 1000, Clear] (initial True)) = Some [] \<and>
   map_option pendingEmails
     (run sample_parse [Scan (det ''a@x.eu'' 10 10) 1000, Clear, Flush 1400] (initial True))
     = Some [''a@x.eu'']"
  using clear_keeps_pending_buffer
    [of "initial True" 1400 sample_parse "det ''a@x.eu'' 10 10" "''a@x.eu''" 1000]
    clear_keeps_pending_buffer
    [of "scan_email ''a@x.eu'' (det ''a@x.eu'' 10 10) 1000 (initial True)" 1400]
  by (simp add: model_defs example_defs)

end
